theory Spec2Isabelle
  imports Complex_Main "HOL-Library.Monad_Syntax"
begin

text \<open>
  The data-sample pipeline of goplot: \<open>parseLine\<close>, \<open>dataSampleProcess\<close> and
  \<open>linearRegression\<close> of \<open>goplot.go\<close>, in its two revisions (the older one writes the
  response by hand, the later one marshals it as JSON). Go's library functions are
  modelled where their behaviour is fixed by their documentation (\<open>strings.SplitN\<close>,
  \<open>strings.TrimSpace\<close>, \<open>math.Sqrt\<close>, the structure of \<open>json.Marshal\<close>) and are
  parameters where it is the conversion between text and \<open>float64\<close>
  (\<open>strconv.ParseFloat\<close>, the formatting of numbers). A run-time panic is the value
  \<open>None\<close>.
\<close>

section \<open>Values of type float64\<close>

text \<open>
  A Go \<open>float64\<close> is either a finite number, one of the two infinities, or NaN.
  The arithmetic below follows IEEE 754 on the special values (a division by zero gives
  an infinity or NaN, NaN is absorbing, the square root of a negative number is NaN).
  On finite operands the exact real result is taken: rounding, overflow and the sign of
  zero are left out. (In the source no divisor can be a negative zero: each one is a
  length, a difference or a sum of squares taken from \<open>0.0\<close>.) The general theorems
  below use the arithmetic of the special values only; the concrete series evaluated
  hold small integers, on which binary64 arithmetic is exact.
\<close>

datatype float64 = Finite real | PInf | NInf | NaN

instantiation float64 :: "{plus, uminus, minus, times, inverse}"
begin

fun uminus_float64 :: "float64 \<Rightarrow> float64" where
  "uminus_float64 (Finite a) = Finite (- a)"
| "uminus_float64 PInf = NInf"
| "uminus_float64 NInf = PInf"
| "uminus_float64 NaN = NaN"

fun plus_float64 :: "float64 \<Rightarrow> float64 \<Rightarrow> float64" where
  "plus_float64 (Finite a) (Finite b) = Finite (a + b)"
| "plus_float64 (Finite a) PInf = PInf"
| "plus_float64 (Finite a) NInf = NInf"
| "plus_float64 PInf (Finite b) = PInf"
| "plus_float64 PInf PInf = PInf"
| "plus_float64 PInf NInf = NaN"
| "plus_float64 NInf (Finite b) = NInf"
| "plus_float64 NInf PInf = NaN"
| "plus_float64 NInf NInf = NInf"
| "plus_float64 NaN y = NaN"
| "plus_float64 x NaN = NaN"

definition minus_float64 :: "float64 \<Rightarrow> float64 \<Rightarrow> float64" where
  "minus_float64 (x::float64) y = x + (- y)"

fun times_float64 :: "float64 \<Rightarrow> float64 \<Rightarrow> float64" where
  "times_float64 (Finite a) (Finite b) = Finite (a * b)"
| "times_float64 (Finite a) PInf = (if a = 0 then NaN else if 0 < a then PInf else NInf)"
| "times_float64 (Finite a) NInf = (if a = 0 then NaN else if 0 < a then NInf else PInf)"
| "times_float64 PInf (Finite b) = (if b = 0 then NaN else if 0 < b then PInf else NInf)"
| "times_float64 NInf (Finite b) = (if b = 0 then NaN else if 0 < b then NInf else PInf)"
| "times_float64 PInf PInf = PInf"
| "times_float64 PInf NInf = NInf"
| "times_float64 NInf PInf = NInf"
| "times_float64 NInf NInf = PInf"
| "times_float64 NaN y = NaN"
| "times_float64 x NaN = NaN"

fun divide_float64 :: "float64 \<Rightarrow> float64 \<Rightarrow> float64" where
  "divide_float64 (Finite a) (Finite b) =
     (if b = 0 then (if a = 0 then NaN else if 0 < a then PInf else NInf)
      else Finite (a / b))"
| "divide_float64 (Finite a) PInf = Finite 0"
| "divide_float64 (Finite a) NInf = Finite 0"
| "divide_float64 PInf (Finite b) = (if 0 \<le> b then PInf else NInf)"
| "divide_float64 NInf (Finite b) = (if 0 \<le> b then NInf else PInf)"
| "divide_float64 PInf PInf = NaN"
| "divide_float64 PInf NInf = NaN"
| "divide_float64 NInf PInf = NaN"
| "divide_float64 NInf NInf = NaN"
| "divide_float64 NaN y = NaN"
| "divide_float64 x NaN = NaN"

definition inverse_float64 :: "float64 \<Rightarrow> float64" where
  "inverse_float64 (x::float64) = divide (Finite 1) x"

instance ..

end

text \<open>\<open>math.Sqrt\<close>: NaN for a negative argument and for NaN, \<open>+Inf\<close> for \<open>+Inf\<close>.\<close>

fun Sqrt :: "float64 \<Rightarrow> float64" where
  "Sqrt (Finite a) = (if a < 0 then NaN else Finite (sqrt a))"
| "Sqrt PInf = PInf"
| "Sqrt NInf = NaN"
| "Sqrt NaN = NaN"

text \<open>The conversion \<open>float64(len)\<close> of a slice length.\<close>

definition float64_of_nat :: "nat \<Rightarrow> float64" where
  "float64_of_nat n = Finite (real n)"

text \<open>\<open>math.IsNaN(f) || math.IsInf(f, 0)\<close>.\<close>

fun IsNaN_or_Inf :: "float64 \<Rightarrow> bool" where
  "IsNaN_or_Inf (Finite a) = False"
| "IsNaN_or_Inf x = True"

section \<open>Strings\<close>

text \<open>
  A Go string is a sequence of bytes and \<open>len\<close> counts bytes; so does \<open>string\<close>
  (a list of 8-bit characters) with \<open>length\<close>.
\<close>

text \<open>Reading \<open>a[i]\<close> from a slice panics when \<open>i\<close> is out of range: \<open>None\<close>.\<close>

definition index :: "'a list \<Rightarrow> nat \<Rightarrow> 'a option" where
  "index a i = (if i < length a then Some (a ! i) else None)"

subsection \<open>strings.SplitN\<close>

text \<open>
  \<open>strings.SplitN(s, sep, n)\<close> for a separator of one byte and \<open>n \<ge> 0\<close> (the source
  calls it with \<open>","\<close> and 3, and with \<open>"\n"\<close> and 1000000): no substring for
  \<open>n = 0\<close>; otherwise at most \<open>n\<close> substrings, the last one being the unsplit
  remainder. The loop of the library cuts at the first separator until \<open>n - 1\<close>
  substrings are cut or no separator is left.
\<close>

fun SplitN :: "string \<Rightarrow> char \<Rightarrow> nat \<Rightarrow> string list" where
  "SplitN s sep 0 = []"
| "SplitN s sep (Suc n) =
     (if n = 0 \<or> sep \<notin> set s then [s]
      else takeWhile (\<lambda>c. c \<noteq> sep) s # SplitN (tl (dropWhile (\<lambda>c. c \<noteq> sep) s)) sep n)"

subsection \<open>strings.TrimSpace\<close>

text \<open>
  \<open>strings.TrimSpace\<close> removes the leading and the trailing white space runes, as
  Unicode defines white space. \<open>spaceRunes\<close> lists the UTF-8 encodings of the code
  points that \<open>unicode.IsSpace\<close> accepts: U+0009 to U+000D, U+0020, U+0085, U+00A0,
  U+1680, U+2000 to U+200A, U+2028, U+2029, U+202F, U+205F, U+3000. A byte sequence
  that is no valid UTF-8 decodes to the error rune, which is no white space, so
  trimming stops there; matching the encodings byte by byte does the same.
\<close>

definition spaceRunes :: "string list" where
  "spaceRunes =
    [[CHR 0x09], [CHR 0x0A], [CHR 0x0B], [CHR 0x0C], [CHR 0x0D], [CHR 0x20],
     [CHR 0xC2, CHR 0x85], [CHR 0xC2, CHR 0xA0],
     [CHR 0xE1, CHR 0x9A, CHR 0x80],
     [CHR 0xE2, CHR 0x80, CHR 0x80], [CHR 0xE2, CHR 0x80, CHR 0x81],
     [CHR 0xE2, CHR 0x80, CHR 0x82], [CHR 0xE2, CHR 0x80, CHR 0x83],
     [CHR 0xE2, CHR 0x80, CHR 0x84], [CHR 0xE2, CHR 0x80, CHR 0x85],
     [CHR 0xE2, CHR 0x80, CHR 0x86], [CHR 0xE2, CHR 0x80, CHR 0x87],
     [CHR 0xE2, CHR 0x80, CHR 0x88], [CHR 0xE2, CHR 0x80, CHR 0x89],
     [CHR 0xE2, CHR 0x80, CHR 0x8A],
     [CHR 0xE2, CHR 0x80, CHR 0xA8], [CHR 0xE2, CHR 0x80, CHR 0xA9],
     [CHR 0xE2, CHR 0x80, CHR 0xAF],
     [CHR 0xE2, CHR 0x81, CHR 0x9F],
     [CHR 0xE3, CHR 0x80, CHR 0x80]]"

text \<open>The width in bytes of the white space rune a string starts with, 0 if none.\<close>

definition spaceWidth :: "string list \<Rightarrow> string \<Rightarrow> nat" where
  "spaceWidth runes s =
     (case List.find (\<lambda>w. take (length w) s = w) runes of
        None \<Rightarrow> 0 | Some w \<Rightarrow> length w)"

function trimLeft :: "string list \<Rightarrow> string \<Rightarrow> string" where
  "trimLeft runes s =
     (if 0 < spaceWidth runes s \<and> spaceWidth runes s \<le> length s
      then trimLeft runes (drop (spaceWidth runes s) s) else s)"
  by pat_completeness auto
termination
  by (relation "measure (\<lambda>(runes, s). length s)") auto

definition TrimLeftSpace :: "string \<Rightarrow> string" where
  "TrimLeftSpace s = trimLeft spaceRunes s"

text \<open>The trailing runes are the leading runes of the reversed string, reversed.\<close>

definition TrimRightSpace :: "string \<Rightarrow> string" where
  "TrimRightSpace s = rev (trimLeft (map rev spaceRunes) (rev s))"

definition TrimSpace :: "string \<Rightarrow> string" where
  "TrimSpace s = TrimRightSpace (TrimLeftSpace s)"

section \<open>The program\<close>

text \<open>
  \<open>Point\<close> as declared in the source (fields \<open>x\<close>, \<open>y\<close> in \<open>goplot.go\<close>; \<open>X\<close>,
  \<open>Y\<close> with the JSON names \<open>x\<close>, \<open>y\<close> in the later revision of the file).
\<close>

record Point =
  X :: float64
  Y :: float64

text \<open>The zero value of \<open>Point\<close>, which a named result \<open>p Point\<close> starts with.\<close>

definition zeroPoint :: Point where
  "zeroPoint = \<lparr>X = Finite 0, Y = Finite 0\<rparr>"

text \<open>
  The errors \<open>parseLine\<close> can return: its own \<open>errors.New("parseLine: No data")\<close>
  (the specification's \<open>EmptyLine\<close>) and the error of \<open>strconv.ParseFloat\<close>, a
  syntax error or a range error (the specification's \<open>InvalidNumber\<close>). The source has
  no other error; \<open>None\<close> is Go's \<open>nil\<close>.
\<close>

datatype NumError = ErrSyntax | ErrRange

datatype error = ErrNoData | ErrParseFloat NumError

text \<open>
  \<open>strconv.ParseFloat(s, 64)\<close> is library code: it is a parameter of the model. It
  returns a value and an error, as in Go (the value is 0 with a syntax error and an
  infinity with a range error).
\<close>

type_synonym ParseFloat = "string \<Rightarrow> float64 \<times> NumError option"

subsection \<open>parseLine\<close>

text \<open>
  The result is Go's pair \<open>(p, err)\<close>; the outer \<open>option\<close> is \<open>None\<close> for a run-time
  panic (an index out of range). The named results start as the zero \<open>Point\<close> and
  \<open>nil\<close>; the source assigns nothing when \<open>coordsAr\<close> has fewer than two elements, and
  assigns \<open>p.x\<close> (\<open>p.y\<close>) together with \<open>err\<close> from each call of
  \<open>strconv.ParseFloat\<close>.
\<close>

definition parseLine :: "ParseFloat \<Rightarrow> string \<Rightarrow> (Point \<times> error option) option" where
  "parseLine pf coords =
     (if length coords > 0 then
        (let coordsAr = SplitN (TrimSpace coords) (CHR '','') 3 in
         if length coordsAr > 1 then
           do {
             f0 \<leftarrow> index coordsAr 0;
             let (x, err) = pf f0;
             if err = None then
               do {
                 f1 \<leftarrow> index coordsAr 1;
                 let (y, err) = pf f1;
                 Some (\<lparr>X = x, Y = y\<rparr>, map_option ErrParseFloat err)
               }
             else Some (\<lparr>X = x, Y = Finite 0\<rparr>, map_option ErrParseFloat err)
           }
         else Some (zeroPoint, None))
      else Some (zeroPoint, Some ErrNoData))"

subsection \<open>dataSampleProcess: reading the series\<close>

definition MAXLINES :: nat where
  "MAXLINES = 1000000"

text \<open>The loop \<open>for ix := 0; ix < lineCount; ix++\<close> over the source lines.\<close>

function ingestLoop ::
  "ParseFloat \<Rightarrow> string list \<Rightarrow> nat \<Rightarrow> nat \<Rightarrow> Point list \<Rightarrow> Point list option" where
  "ingestLoop pf srcLines lineCount ix series =
     (if ix < lineCount then
        (case index srcLines ix of
           None \<Rightarrow> None
         | Some l \<Rightarrow>
             (case parseLine pf l of
                None \<Rightarrow> None
              | Some (stmp, err) \<Rightarrow>
                  ingestLoop pf srcLines lineCount (ix + 1)
                    (if err = None then series @ [stmp] else series)))
      else Some series)"
  by pat_completeness auto
termination
  by (relation "measure (\<lambda>(pf, srcLines, lineCount, ix, series). lineCount - ix)") auto

text \<open>
  The first part of \<open>dataSampleProcess\<close>, up to the end of the loop: the
  specification's \<open>ingest\<close>.
\<close>

definition ingest :: "ParseFloat \<Rightarrow> string \<Rightarrow> Point list option" where
  "ingest pf src =
     (let srcLines = SplitN src (CHR 0x0A) MAXLINES;
          lineCount = length srcLines
      in ingestLoop pf srcLines lineCount 0 [])"

subsection \<open>linearRegression\<close>

function sumLoop ::
  "Point list \<Rightarrow> nat \<Rightarrow> nat \<Rightarrow> float64 \<times> float64 \<times> float64 \<times> float64
     \<Rightarrow> (float64 \<times> float64 \<times> float64 \<times> float64) option" where
  "sumLoop series len ix (sumx, sumy, sumxy, sumx2) =
     (if ix < len then
        (case index series ix of
           None \<Rightarrow> None
         | Some p \<Rightarrow>
             (let x = X p; y = Y p
              in sumLoop series len (ix + 1)
                   (sumx + x, sumy + y, sumxy + x * y, sumx2 + x * x)))
      else Some (sumx, sumy, sumxy, sumx2))"
  by pat_completeness auto
termination
  by (relation "measure (\<lambda>(series, len, ix, acc). len - ix)") auto

function residualLoop ::
  "Point list \<Rightarrow> nat \<Rightarrow> float64 \<Rightarrow> float64 \<Rightarrow> float64 \<Rightarrow> nat \<Rightarrow> float64 \<times> float64
     \<Rightarrow> (float64 \<times> float64) option" where
  "residualLoop series len ymean slope intercept ix (st, sr) =
     (if ix < len then
        (case index series ix of
           None \<Rightarrow> None
         | Some p \<Rightarrow>
             (let x = X p; y = Y p
              in residualLoop series len ymean slope intercept (ix + 1)
                   (st + (y - ymean) * (y - ymean),
                    sr + (y - (slope * x - intercept)) * (y - (slope * x - intercept)))))
      else Some (st, sr))"
  by pat_completeness auto
termination
  by (relation
      "measure (\<lambda>(series, len, ymean, slope, intercept, ix, acc). len - ix)") auto

text \<open>The four results are \<open>(slope, intercept, stdError, correlation)\<close>.\<close>

definition linearRegression ::
  "Point list \<Rightarrow> (float64 \<times> float64 \<times> float64 \<times> float64) option" where
  "linearRegression series =
     (let len = length series;
          flen = float64_of_nat len
      in do {
        (sumx, sumy, sumxy, sumx2) \<leftarrow>
          sumLoop series len 0 (Finite 0, Finite 0, Finite 0, Finite 0);
        let xmean = sumx / flen;
        let ymean = sumy / flen;
        let slope = (flen * sumxy - sumx * sumy) / (flen * sumx2 - sumx * sumx);
        let intercept = ymean - slope * xmean;
        (st, sr) \<leftarrow> residualLoop series len ymean slope intercept 0 (Finite 0, Finite 0);
        let stdError = Sqrt (sr / (flen - Finite 2));
        let correlation = Sqrt ((st - sr) / st);
        Some (slope, intercept, stdError, correlation)
      })"

subsection \<open>dataSampleProcess: the response\<close>

text \<open>
  The later revision of the file declares the response as structures with JSON names and
  hands it to \<open>json.Marshal\<close>.
\<close>

record RegressionLine =
  Slope :: float64
  Intercept :: float64
  StdError :: float64
  Correlation :: float64

record DataSample =
  Series :: "Point list"
  RegressionLine :: RegressionLine

text \<open>
  \<open>json.Marshal\<close> at the type \<open>DataSample\<close>, as package \<open>encoding/json\<close> encodes
  structures, slices and floating-point numbers: a structure is written as
  \<open>{"name":value,...}\<close> with the names of the field tags, in the order of the
  fields; a slice that is not nil as \<open>[value,...]\<close>; a \<open>float64\<close> that is NaN or
  infinite is refused with an \<open>UnsupportedValueError\<close>, which ends the encoding. The
  text written for a finite number is library code and a parameter of the model.
\<close>

datatype MarshalError = UnsupportedValueError

type_synonym FormatFloat = "float64 \<Rightarrow> string"

definition bindE :: "'e + 'a \<Rightarrow> ('a \<Rightarrow> 'e + 'b) \<Rightarrow> 'e + 'b" where
  "bindE m f = (case m of Inl e \<Rightarrow> Inl e | Inr a \<Rightarrow> f a)"

definition quote :: "string \<Rightarrow> string" where
  "quote s = CHR 0x22 # s @ [CHR 0x22]"

definition floatEncoder :: "FormatFloat \<Rightarrow> float64 \<Rightarrow> MarshalError + string" where
  "floatEncoder fmt f = (if IsNaN_or_Inf f then Inl UnsupportedValueError else Inr (fmt f))"

definition encodePoint :: "FormatFloat \<Rightarrow> Point \<Rightarrow> MarshalError + string" where
  "encodePoint fmt p =
     bindE (floatEncoder fmt (X p)) (\<lambda>x.
     bindE (floatEncoder fmt (Y p)) (\<lambda>y.
     Inr (''{'' @ quote ''x'' @ '':'' @ x @ '','' @ quote ''y'' @ '':'' @ y @ ''}'')))"

fun encodeElems :: "FormatFloat \<Rightarrow> Point list \<Rightarrow> MarshalError + string" where
  "encodeElems fmt [] = Inr []"
| "encodeElems fmt [p] = encodePoint fmt p"
| "encodeElems fmt (p # q # ps) =
     bindE (encodePoint fmt p) (\<lambda>e.
     bindE (encodeElems fmt (q # ps)) (\<lambda>es.
     Inr (e @ '','' @ es)))"

definition encodeSeries :: "FormatFloat \<Rightarrow> Point list \<Rightarrow> MarshalError + string" where
  "encodeSeries fmt series = bindE (encodeElems fmt series) (\<lambda>es. Inr (''['' @ es @ '']''))"

definition encodeRegressionLine :: "FormatFloat \<Rightarrow> RegressionLine \<Rightarrow> MarshalError + string" where
  "encodeRegressionLine fmt r =
     bindE (floatEncoder fmt (Slope r)) (\<lambda>slope.
     bindE (floatEncoder fmt (Intercept r)) (\<lambda>intercept.
     bindE (floatEncoder fmt (StdError r)) (\<lambda>stdError.
     bindE (floatEncoder fmt (Correlation r)) (\<lambda>correlation.
     Inr (''{'' @ quote ''slope'' @ '':'' @ slope
          @ '','' @ quote ''intercept'' @ '':'' @ intercept
          @ '','' @ quote ''stdError'' @ '':'' @ stdError
          @ '','' @ quote ''correlation'' @ '':'' @ correlation @ ''}'')))))"

definition Marshal :: "FormatFloat \<Rightarrow> DataSample \<Rightarrow> MarshalError + string" where
  "Marshal fmt ds =
     bindE (encodeSeries fmt (Series ds)) (\<lambda>series.
     bindE (encodeRegressionLine fmt (RegressionLine ds)) (\<lambda>regressionLine.
     Inr (''{'' @ quote ''series'' @ '':'' @ series
          @ '','' @ quote ''regressionLine'' @ '':'' @ regressionLine @ ''}'')))"

text \<open>
  \<open>dataSampleProcess\<close> of the later revision: the series is read (\<open>ingest\<close> above is
  its first part), the regression is computed, the sample is marshalled. When
  \<open>Marshal\<close> returns an error the function prints it and returns its named result
  \<open>results\<close>, which is still the empty string; the line printed on standard output is
  not part of the model.
\<close>

definition dataSampleProcess :: "ParseFloat \<Rightarrow> FormatFloat \<Rightarrow> string \<Rightarrow> string option" where
  "dataSampleProcess pf fmt src =
     do {
       series \<leftarrow> ingest pf src;
       (slope, intercept, stdError, correlation) \<leftarrow> linearRegression series;
       let dataSample =
         \<lparr>Series = series,
          RegressionLine = \<lparr>Slope = slope, Intercept = intercept,
                            StdError = stdError, Correlation = correlation\<rparr>\<rparr>;
       (case Marshal fmt dataSample of
          Inl err \<Rightarrow> Some []
        | Inr jsonDataSample \<Rightarrow> Some jsonDataSample)
     }"

text \<open>
  \<open>dataSampleProcess\<close> of \<open>goplot.go\<close> writes the response by hand: every point with
  \<open>strconv.FormatFloat(v, 'f', 3, 64)\<close> (the parameter \<open>fmt3\<close>), the regression line
  with the verb \<open>%f\<close> of \<open>fmt.Sprintf\<close> (the parameter \<open>fmtf\<close>). Both print NaN and the
  infinities as well, so this version has no error to report.
\<close>

function seriesLoop :: "FormatFloat \<Rightarrow> Point list \<Rightarrow> nat \<Rightarrow> string \<Rightarrow> string option" where
  "seriesLoop fmt3 series ix jsonStr =
     (if ix < length series then
        (case index series ix of
           None \<Rightarrow> None
         | Some p \<Rightarrow>
             seriesLoop fmt3 series (ix + 1)
               (jsonStr @ ''{x:'' @ fmt3 (X p) @ '',y:'' @ fmt3 (Y p) @ ''},''))
      else Some jsonStr)"
  by pat_completeness auto
termination
  by (relation "measure (\<lambda>(fmt3, series, ix, jsonStr). length series - ix)") auto

definition dataSampleProcess_goplot ::
  "ParseFloat \<Rightarrow> FormatFloat \<Rightarrow> FormatFloat \<Rightarrow> string \<Rightarrow> string option" where
  "dataSampleProcess_goplot pf fmt3 fmtf src =
     do {
       series \<leftarrow> ingest pf src;
       jsonStr \<leftarrow> seriesLoop fmt3 series 0 ''{series:['';
       let jsonStr = jsonStr @ ''],'' @ [CHR 0x0A];
       (slope, intercept, stdError, correlation) \<leftarrow> linearRegression series;
       let jsonStr = jsonStr @ ''regressionLine:{slope:'' @ fmtf slope
                       @ '',intercept:'' @ fmtf intercept
                       @ '',stdError:'' @ fmtf stdError
                       @ '',correlation:'' @ fmtf correlation @ ''},'';
       let jsonStr = jsonStr @ ''}'';
       Some jsonStr
     }"

section \<open>The specification's side\<close>

subsection \<open>The series a submission stands for\<close>

text \<open>The pairs of the lines on which \<open>parseLine\<close> returns no error, in the order of the lines.\<close>

definition accepted :: "ParseFloat \<Rightarrow> string list \<Rightarrow> Point list" where
  "accepted pf ls =
     List.map_filter
       (\<lambda>l. case parseLine pf l of Some (p, None) \<Rightarrow> Some p | _ \<Rightarrow> None) ls"

text \<open>
  The bytes that occur in Go's floating-point literals of finite numbers (decimal and
  hexadecimal): the text of a syntactically valid number is made of them.
\<close>

definition numberChars :: string where
  "numberChars = ''+-.0123456789ABCDEFPX_abcdefpx''"

definition numberText :: "string \<Rightarrow> bool" where
  "numberText s = list_all (\<lambda>c. c \<in> set numberChars) s"

subsection \<open>The regression formulas\<close>

text \<open>A sum over the series, taken from 0 in the order of the series.\<close>

definition Sigma :: "(Point \<Rightarrow> float64) \<Rightarrow> Point list \<Rightarrow> float64" where
  "Sigma f series = foldl (+) (Finite 0) (map f series)"

definition slopeDenominator :: "Point list \<Rightarrow> float64" where
  "slopeDenominator series =
     float64_of_nat (length series) * Sigma (\<lambda>p. X p * X p) series
       - Sigma X series * Sigma X series"

definition totalSquares :: "Point list \<Rightarrow> float64" where
  "totalSquares series =
     (let mean = Sigma Y series / float64_of_nat (length series)
      in Sigma (\<lambda>p. (Y p - mean) * (Y p - mean)) series)"

text \<open>The formulas of the specification's regression engine, in its words.\<close>

definition regress :: "Point list \<Rightarrow> float64 \<times> float64 \<times> float64 \<times> float64" where
  "regress series =
     (let n = float64_of_nat (length series);
          Sx = Sigma X series;
          Sy = Sigma Y series;
          Sxy = Sigma (\<lambda>p. X p * Y p) series;
          Sx2 = Sigma (\<lambda>p. X p * X p) series;
          slope = (n * Sxy - Sx * Sy) / (n * Sx2 - Sx * Sx);
          intercept = Sy / n - slope * (Sx / n);
          St = Sigma (\<lambda>p. (Y p - Sy / n) * (Y p - Sy / n)) series;
          Sr = Sigma (\<lambda>p. (Y p - (slope * X p - intercept))
                           * (Y p - (slope * X p - intercept))) series;
          standardError = Sqrt (Sr / (n - Finite 2));
          correlation = Sqrt ((St - Sr) / St)
      in (slope, intercept, standardError, correlation))"

subsection \<open>The response document\<close>

text \<open>A structured document, and its compact JSON text.\<close>

datatype json = JNumber string | JArray "json list" | JObject "(string \<times> json) list"

fun joinComma :: "string list \<Rightarrow> string" where
  "joinComma [] = []"
| "joinComma [s] = s"
| "joinComma (s # t # ss) = s @ '','' @ joinComma (t # ss)"

fun render :: "json \<Rightarrow> string" where
  "render (JNumber s) = s"
| "render (JArray vs) = ''['' @ joinComma (map render vs) @ '']''"
| "render (JObject fs) =
     ''{'' @ joinComma (map (\<lambda>(k, v). quote k @ '':'' @ render v) fs) @ ''}''"

text \<open>
  The document of the specification: two top-level fields, \<open>series\<close>, a list of
  objects with the fields \<open>x\<close> and \<open>y\<close>, and \<open>regressionLine\<close>, an object with the
  fields \<open>slope\<close>, \<open>intercept\<close>, \<open>stdError\<close> and \<open>correlation\<close>.
\<close>

definition document :: "FormatFloat \<Rightarrow> DataSample \<Rightarrow> json" where
  "document fmt ds =
     JObject
       [(''series'',
           JArray (map (\<lambda>p. JObject [(''x'', JNumber (fmt (X p))),
                                      (''y'', JNumber (fmt (Y p)))]) (Series ds))),
        (''regressionLine'',
           JObject [(''slope'', JNumber (fmt (Slope (RegressionLine ds)))),
                    (''intercept'', JNumber (fmt (Intercept (RegressionLine ds)))),
                    (''stdError'', JNumber (fmt (StdError (RegressionLine ds)))),
                    (''correlation'', JNumber (fmt (Correlation (RegressionLine ds))))])]"

text \<open>Every number of the sample is finite.\<close>

definition finiteSample :: "DataSample \<Rightarrow> bool" where
  "finiteSample ds =
     (list_all (\<lambda>p. \<not> IsNaN_or_Inf (X p) \<and> \<not> IsNaN_or_Inf (Y p)) (Series ds)
      \<and> \<not> IsNaN_or_Inf (Slope (RegressionLine ds))
      \<and> \<not> IsNaN_or_Inf (Intercept (RegressionLine ds))
      \<and> \<not> IsNaN_or_Inf (StdError (RegressionLine ds))
      \<and> \<not> IsNaN_or_Inf (Correlation (RegressionLine ds)))"

subsection \<open>Instances of the library parameters\<close>

text \<open>
  For the concrete inputs below the parameters are instantiated: with
  \<open>strconv.ParseFloat\<close> on the texts of at most 15 decimal digits, where it is exact
  (on any other text this instance reports a syntax error, as \<open>strconv.ParseFloat\<close>
  does on the texts \<open>abc\<close> and \<open>bad line\<close> used below), and with the JSON text of a
  \<open>float64\<close> whose value is a natural number below \<open>10^21\<close>, its decimal digits (this
  instance writes nothing for any other value).
\<close>

definition digitValue :: "string \<Rightarrow> nat" where
  "digitValue s = foldl (\<lambda>n c. 10 * n + (of_char c - 48)) 0 s"

definition decimalParseFloat :: ParseFloat where
  "decimalParseFloat s =
     (if s \<noteq> [] \<and> length s \<le> 15 \<and> list_all (\<lambda>c. c \<in> set ''0123456789'') s
      then (Finite (real (digitValue s)), None)
      else (Finite 0, Some ErrSyntax))"

function decimal :: "nat \<Rightarrow> string" where
  "decimal n =
     (if n < 10 then [''0123456789'' ! n]
      else decimal (n div 10) @ [''0123456789'' ! (n mod 10)])"
  by pat_completeness auto
termination
  by (relation "measure (\<lambda>n. n)") auto

definition decimalFormat :: FormatFloat where
  "decimalFormat f =
     (case f of
        Finite r \<Rightarrow>
          (if 0 \<le> r \<and> r < 10 ^ 21 \<and> r = real (nat \<lfloor>r\<rfloor>) then decimal (nat \<lfloor>r\<rfloor>) else [])
      | _ \<Rightarrow> [])"

section \<open>Proofs\<close>

declare trimLeft.simps [simp del] ingestLoop.simps [simp del] sumLoop.simps [simp del]
  residualLoop.simps [simp del] seriesLoop.simps [simp del] decimal.simps [simp del]

subsection \<open>Trimming and splitting\<close>

text \<open>
  The width found at the head of a string is the length of a rune listed, and that
  rune is a prefix of the string.
\<close>

lemma find_Some_set: "List.find P xs = Some x \<Longrightarrow> x \<in> set xs \<and> P x"
  by (auto simp: find_Some_iff)

lemma spaceWidth_found:
  assumes "0 < spaceWidth runes s"
  shows "\<exists>w \<in> set runes. spaceWidth runes s = length w \<and> take (length w) s = w"
proof (cases "List.find (\<lambda>w. take (length w) s = w) runes")
  case None
  then show ?thesis using assms by (simp add: spaceWidth_def)
next
  case (Some w)
  then show ?thesis using find_Some_set [OF Some] by (auto simp: spaceWidth_def)
qed

lemma spaceWidth_zero:
  assumes "\<forall>w \<in> set runes. take (length w) s \<noteq> w"
  shows "spaceWidth runes s = 0"
proof -
  have "List.find (\<lambda>w. take (length w) s = w) runes = None"
    using assms by (simp add: find_None_iff)
  then show ?thesis by (simp add: spaceWidth_def)
qed

text \<open>
  No listed rune is a proper prefix of another one, so a string that starts with a rune
  loses exactly that rune.
\<close>

lemma spaceWidth_rune:
  assumes free: "\<forall>w \<in> set runes. \<forall>v \<in> set runes. take (length v) w = v \<longrightarrow> v = w"
    and w: "w \<in> set runes" and ne: "w \<noteq> []"
  shows "spaceWidth runes (w @ s) = length w"
proof -
  have "List.find (\<lambda>v. take (length v) (w @ s) = v) runes \<noteq> None"
    using w by (auto simp: find_None_iff)
  then obtain v where f: "List.find (\<lambda>v. take (length v) (w @ s) = v) runes = Some v"
    by blast
  then have v: "v \<in> set runes" and pv: "take (length v) (w @ s) = v"
    by (auto simp: find_Some_iff)
  have "v = w"
  proof (cases "length v \<le> length w")
    case True
    then have "take (length v) w = v" using pv by simp
    then show ?thesis using free v w by blast
  next
    case False
    then have "take (length w) v = w"
      using pv by (metis append_eq_conv_conj nat_le_linear take_all_iff take_append take_take)
    then show ?thesis using free v w by metis
  qed
  then show ?thesis using f by (simp add: spaceWidth_def)
qed

lemma trimLeft_stop: "spaceWidth runes s = 0 \<Longrightarrow> trimLeft runes s = s"
  by (subst trimLeft.simps) simp

lemma trimLeft_Nil [simp]: "trimLeft runes [] = []"
  by (subst trimLeft.simps) auto

lemma trimLeft_rune:
  assumes free: "\<forall>w \<in> set runes. \<forall>v \<in> set runes. take (length v) w = v \<longrightarrow> v = w"
    and w: "w \<in> set runes" and ne: "w \<noteq> []"
  shows "trimLeft runes (w @ s) = trimLeft runes s"
  using spaceWidth_rune [OF free w ne, of s] ne
  by (subst trimLeft.simps) simp

lemma trimLeft_runes:
  assumes free: "\<forall>w \<in> set runes. \<forall>v \<in> set runes. take (length v) w = v \<longrightarrow> v = w"
    and ne: "[] \<notin> set runes"
  shows "set ws \<subseteq> set runes \<Longrightarrow> trimLeft runes (concat ws @ s) = trimLeft runes s"
proof (induction ws)
  case Nil
  then show ?case by simp
next
  case (Cons w ws)
  then have "w \<in> set runes" and "w \<noteq> []" using ne by auto
  then show ?case using Cons trimLeft_rune [OF free] by simp
qed

lemma trimLeft_head:
  assumes "\<forall>w \<in> set runes. w \<noteq> [] \<and> c \<notin> set w"
  shows "trimLeft runes (c # s) = c # s"
proof -
  have "\<forall>w \<in> set runes. take (length w) (c # s) \<noteq> w"
  proof
    fix w assume w: "w \<in> set runes"
    then have "w \<noteq> []" and "c \<notin> set w" using assms by auto
    then obtain a v where "w = a # v" and "a \<noteq> c"
      by (cases w) auto
    then show "take (length w) (c # s) \<noteq> w" by auto
  qed
  then show ?thesis by (simp add: spaceWidth_zero trimLeft_stop)
qed

text \<open>
  Trimming never removes a byte that occurs in no rune, nor anything behind it.
\<close>

lemma trimLeft_keeps:
  assumes "\<forall>w \<in> set runes. c \<notin> set w"
  shows "\<exists>u'. trimLeft runes (u @ c # v) = u' @ c # v"
proof (induction "length u" arbitrary: u rule: less_induct)
  case less
  show ?case
  proof (cases "0 < spaceWidth runes (u @ c # v) \<and> spaceWidth runes (u @ c # v) \<le> length (u @ c # v)")
    case False
    have "trimLeft runes (u @ c # v) = u @ c # v"
      by (subst trimLeft.simps) (use False in presburger)
    then show ?thesis by blast
  next
    case True
    then obtain w where w: "w \<in> set runes" and k: "spaceWidth runes (u @ c # v) = length w"
      and tk: "take (length w) (u @ c # v) = w"
      using spaceWidth_found by blast
    have pos: "0 < length w" using True k by simp
    have le: "length w \<le> length u"
    proof (rule ccontr)
      assume "\<not> length w \<le> length u"
      then have "length u < length w" by simp
      then have "w ! length u = c"
        using tk by (metis nth_append_length nth_take)
      moreover have "length u < length w" by fact
      ultimately have "c \<in> set w" using nth_mem by metis
      then show False using assms w by blast
    qed
    have dr: "drop (length w) (u @ c # v) = drop (length w) u @ c # v"
      using le by simp
    have "length u - length w < length u" using pos le by linarith
    then have "length (drop (length w) u) < length u" by simp
    then obtain u' where "trimLeft runes (drop (length w) u @ c # v) = u' @ c # v"
      using less by blast
    then have "trimLeft runes (u @ c # v) = u' @ c # v"
      using True k dr by (subst trimLeft.simps) simp
    then show ?thesis by blast
  qed
qed

text \<open>
  The facts about the white space of Unicode: its encodings are prefix-free in both
  directions, and all their bytes are control characters, the space, or bytes from
  \<open>0x7F\<close> on.
\<close>

lemma spaceRunes_free:
  "\<forall>w \<in> set spaceRunes. \<forall>v \<in> set spaceRunes. take (length v) w = v \<longrightarrow> v = w"
  by (simp add: spaceRunes_def)

lemma spaceRunes_rev_free:
  "\<forall>w \<in> set (map rev spaceRunes). \<forall>v \<in> set (map rev spaceRunes). take (length v) w = v \<longrightarrow> v = w"
  by (simp add: spaceRunes_def)

lemma spaceRunes_bytes:
  "w \<in> set spaceRunes \<Longrightarrow> b \<in> set w \<Longrightarrow> (of_char b :: nat) \<le> 0x20 \<or> 0x7F \<le> (of_char b :: nat)"
  by (auto simp: spaceRunes_def)

lemma spaceRunes_nonempty: "[] \<notin> set spaceRunes" "[] \<notin> set (map rev spaceRunes)"
  by (simp_all add: spaceRunes_def)

lemma graphic_no_space:
  assumes "0x20 < (of_char c :: nat)" and "(of_char c :: nat) < 0x7F"
  shows "\<forall>w \<in> set spaceRunes. w \<noteq> [] \<and> c \<notin> set w"
proof
  fix w assume w: "w \<in> set spaceRunes"
  have "c \<notin> set w"
  proof
    assume "c \<in> set w"
    then have "(of_char c :: nat) \<le> 0x20 \<or> 0x7F \<le> (of_char c :: nat)"
      using spaceRunes_bytes [OF w] by blast
    then show False using assms by linarith
  qed
  then show "w \<noteq> [] \<and> c \<notin> set w" using w spaceRunes_nonempty(1) by auto
qed

lemma graphic_no_space_rev:
  assumes "0x20 < (of_char c :: nat)" and "(of_char c :: nat) < 0x7F"
  shows "\<forall>w \<in> set (map rev spaceRunes). w \<noteq> [] \<and> c \<notin> set w"
  using graphic_no_space [OF assms] by auto

lemma numberChars_graphic:
  "c \<in> set (CHR '','' # numberChars) \<Longrightarrow> 0x20 < (of_char c :: nat) \<and> (of_char c :: nat) < 0x7F"
  by (auto simp: numberChars_def)

lemma TrimLeftSpace_core:
  assumes "set ws \<subseteq> set spaceRunes"
    and "0x20 < (of_char c :: nat)" and "(of_char c :: nat) < 0x7F"
  shows "TrimLeftSpace (concat ws @ c # s) = c # s"
  using trimLeft_runes [OF spaceRunes_free spaceRunes_nonempty(1) assms(1)]
    trimLeft_head [OF graphic_no_space [OF assms(2,3)]]
  by (simp add: TrimLeftSpace_def)

lemma TrimRightSpace_core:
  assumes "set ws \<subseteq> set spaceRunes"
    and "0x20 < (of_char c :: nat)" and "(of_char c :: nat) < 0x7F"
  shows "TrimRightSpace (s @ c # concat ws) = s @ [c]"
proof -
  have sub: "set (map rev (rev ws)) \<subseteq> set (map rev spaceRunes)"
    using assms(1) by auto
  have "rev (s @ c # concat ws) = concat (map rev (rev ws)) @ c # rev s"
    by (simp add: rev_concat)
  then have "trimLeft (map rev spaceRunes) (rev (s @ c # concat ws)) = c # rev s"
    using trimLeft_runes [OF spaceRunes_rev_free spaceRunes_nonempty(2) sub]
      trimLeft_head [OF graphic_no_space_rev [OF assms(2,3)]]
    by simp
  then show ?thesis by (simp add: TrimRightSpace_def)
qed

lemma TrimRightSpace_keeps:
  "\<exists>r. TrimRightSpace (s @ CHR '','' # t) = s @ CHR '','' # r"
proof -
  have "\<forall>w \<in> set (map rev spaceRunes). CHR '','' \<notin> set w"
    using graphic_no_space_rev [of "CHR '',''"] by simp
  then obtain u where "trimLeft (map rev spaceRunes) (rev t @ CHR '','' # rev s) = u @ CHR '','' # rev s"
    using trimLeft_keeps by blast
  then have "TrimRightSpace (s @ CHR '','' # t) = s @ CHR '','' # rev u"
    by (simp add: TrimRightSpace_def)
  then show ?thesis by blast
qed

lemma TrimSpace_graphic:
  assumes "0x20 < (of_char c :: nat)" and "(of_char c :: nat) < 0x7F"
    and "0x20 < (of_char d :: nat)" and "(of_char d :: nat) < 0x7F"
  shows "TrimSpace [c] = [c]" and "TrimSpace (c # s @ [d]) = c # s @ [d]"
proof -
  have l: "\<And>t. TrimLeftSpace (c # t) = c # t"
    using TrimLeftSpace_core [of "[]" c] assms(1,2) by simp
  have r: "\<And>e t. 0x20 < (of_char e :: nat) \<Longrightarrow> (of_char e :: nat) < 0x7F
              \<Longrightarrow> TrimRightSpace (t @ [e]) = t @ [e]"
    using TrimRightSpace_core [of "[]"] by simp
  show "TrimSpace [c] = [c]"
    using l [of "[]"] r [of c "[]"] assms(1,2) by (simp add: TrimSpace_def)
  show "TrimSpace (c # s @ [d]) = c # s @ [d]"
    using l [of "s @ [d]"] r [of d "c # s"] assms(3,4) by (simp add: TrimSpace_def)
qed

lemma TrimSpace_text:
  assumes "0x20 < (of_char c :: nat)" and "(of_char c :: nat) < 0x7F"
    and "0x20 < (of_char d :: nat)" and "(of_char d :: nat) < 0x7F"
    and "t = c # s @ [d]"
  shows "TrimSpace t = t"
  using TrimSpace_graphic(2) [OF assms(1-4)] assms(5) by simp

lemma TrimSpace_spaces:
  "set ws \<subseteq> set spaceRunes \<Longrightarrow> TrimSpace (concat ws) = []"
  using trimLeft_runes [OF spaceRunes_free spaceRunes_nonempty(1), of ws "[]"]
  by (simp add: TrimSpace_def TrimLeftSpace_def TrimRightSpace_def)

lemma SplitN_unfold:
  "SplitN s sep n =
     (if n = 0 then []
      else if n = 1 \<or> sep \<notin> set s then [s]
      else takeWhile (\<lambda>c. c \<noteq> sep) s # SplitN (tl (dropWhile (\<lambda>c. c \<noteq> sep) s)) sep (n - 1))"
  by (cases n) auto

lemma SplitN_numeral [simp]:
  "SplitN s sep (numeral k) =
     (if numeral k = (1::nat) \<or> sep \<notin> set s then [s]
      else takeWhile (\<lambda>c. c \<noteq> sep) s
             # SplitN (tl (dropWhile (\<lambda>c. c \<noteq> sep) s)) sep (pred_numeral k))"
  by (subst SplitN_unfold) simp

lemma takeWhile_sep: "sep \<notin> set a \<Longrightarrow> takeWhile (\<lambda>c. c \<noteq> sep) (a @ sep # r) = a"
  by (induction a) auto

lemma dropWhile_sep: "sep \<notin> set a \<Longrightarrow> dropWhile (\<lambda>c. c \<noteq> sep) (a @ sep # r) = sep # r"
  by (induction a) auto

lemma SplitN_two:
  "sep \<notin> set a \<Longrightarrow> sep \<notin> set b \<Longrightarrow> SplitN (a @ sep # b) sep 3 = [a, b]"
  by (simp add: takeWhile_sep dropWhile_sep)

lemma SplitN_three:
  "sep \<notin> set a \<Longrightarrow> sep \<notin> set b \<Longrightarrow> SplitN (a @ sep # b @ sep # r) sep 3 = [a, b, r]"
  by (simp add: takeWhile_sep dropWhile_sep)

subsection \<open>parseLine\<close>

lemma index_less [simp]: "i < length a \<Longrightarrow> index a i = Some (a ! i)"
  by (simp add: index_def)

lemma parseLine_total: "\<exists>p err. parseLine pf coords = Some (p, err)"
  by (auto simp: parseLine_def Let_def split: prod.splits)

lemma parseLine_empty: "parseLine pf [] = Some (zeroPoint, Some ErrNoData)"
  by (simp add: parseLine_def)

lemma parseLine_few_fields:
  "0 < length coords \<Longrightarrow> length (SplitN (TrimSpace coords) (CHR '','') 3) \<le> 1 \<Longrightarrow>
   parseLine pf coords = Some (zeroPoint, None)"
  by (simp add: parseLine_def Let_def)

lemma parseLine_fields:
  assumes "0 < length coords"
    and "SplitN (TrimSpace coords) (CHR '','') 3 = coordsAr" and "2 \<le> length coordsAr"
  shows "parseLine pf coords =
     (case pf (coordsAr ! 0) of
        (x, Some e) \<Rightarrow> Some (\<lparr>X = x, Y = Finite 0\<rparr>, Some (ErrParseFloat e))
      | (x, None) \<Rightarrow>
          (case pf (coordsAr ! 1) of
             (y, err) \<Rightarrow> Some (\<lparr>X = x, Y = y\<rparr>, map_option ErrParseFloat err)))"
  using assms by (auto simp: parseLine_def split: prod.splits option.splits)

lemma parseLine_ErrNoData:
  "(\<exists>p. parseLine pf coords = Some (p, Some ErrNoData)) \<longleftrightarrow> length coords = 0"
  by (auto simp: parseLine_def Let_def split: prod.splits option.splits if_splits)

lemma parseLine_two:
  assumes "0x20 < (of_char c :: nat)" and "(of_char c :: nat) < 0x7F"
    and "0x20 < (of_char d :: nat)" and "(of_char d :: nat) < 0x7F"
    and "coords = c # s @ [d]"
    and "SplitN coords (CHR '','') 3 = [fx, fy]"
    and "pf fx = (x, None)" and "pf fy = (y, None)"
  shows "parseLine pf coords = Some (\<lparr>X = x, Y = y\<rparr>, None)"
  using assms(5-8) TrimSpace_text [OF assms(1-5)] by (simp add: parseLine_def)

lemma parseLine_one:
  assumes "0x20 < (of_char c :: nat)" and "(of_char c :: nat) < 0x7F"
    and "0x20 < (of_char d :: nat)" and "(of_char d :: nat) < 0x7F"
    and "coords = c # s @ [d]"
    and "CHR '','' \<notin> set coords"
  shows "parseLine pf coords = Some (zeroPoint, None)"
  using assms(5,6) TrimSpace_text [OF assms(1-5)] by (simp add: parseLine_def)

lemma numberText_no_comma: "numberText s \<Longrightarrow> CHR '','' \<notin> set s"
  by (auto simp: numberText_def numberChars_def list_all_iff)

lemma numberText_hd: "numberText s \<Longrightarrow> hd (s @ [CHR '','']) \<in> set (CHR '','' # numberChars)"
  by (cases s) (auto simp: numberText_def)

lemma numberText_last: "numberText s \<Longrightarrow> last (CHR '','' # s) \<in> set (CHR '','' # numberChars)"
  by (cases s rule: rev_cases) (auto simp: numberText_def)

lemma fields_two:
  assumes fx: "numberText fx" and fy: "numberText fy"
    and w1: "set ws1 \<subseteq> set spaceRunes" and w2: "set ws2 \<subseteq> set spaceRunes"
  shows "SplitN (TrimSpace (concat ws1 @ fx @ '','' @ fy @ concat ws2)) (CHR '','') 3 = [fx, fy]"
proof -
  obtain c s where cs: "fx @ '','' @ fy @ concat ws2 = c # s" and c: "c \<in> set (CHR '','' # numberChars)"
    using numberText_hd [OF fx] by (cases fx) auto
  have l: "TrimLeftSpace (concat ws1 @ fx @ '','' @ fy @ concat ws2) = fx @ '','' @ fy @ concat ws2"
    using TrimLeftSpace_core [OF w1, of c s] numberChars_graphic [OF c] cs by simp
  obtain d t where dt: "fx @ '','' @ fy = t @ [d]" and d: "d \<in> set (CHR '','' # numberChars)"
    using numberText_last [OF fy] by (cases fy rule: rev_cases) auto
  have r: "TrimRightSpace (t @ d # concat ws2) = t @ [d]"
    using TrimRightSpace_core [OF w2, of d t] numberChars_graphic [OF d] by simp
  have "fx @ '','' @ fy @ concat ws2 = (fx @ '','' @ fy) @ concat ws2" by simp
  also have "\<dots> = t @ d # concat ws2" by (simp only: dt) simp
  finally have e: "fx @ '','' @ fy @ concat ws2 = t @ d # concat ws2" .
  have "TrimSpace (concat ws1 @ fx @ '','' @ fy @ concat ws2)
          = TrimRightSpace (fx @ '','' @ fy @ concat ws2)"
    by (simp only: TrimSpace_def l)
  also have "\<dots> = TrimRightSpace (t @ d # concat ws2)" by (simp only: e)
  also have "\<dots> = t @ [d]" by (rule r)
  also have "\<dots> = fx @ '','' @ fy" by (simp only: dt)
  finally have "TrimSpace (concat ws1 @ fx @ '','' @ fy @ concat ws2) = fx @ '','' @ fy" .
  then show ?thesis
    using SplitN_two [of "CHR '',''" fx fy] numberText_no_comma fx fy by simp
qed

lemma fields_three:
  assumes fx: "numberText fx" and fy: "numberText fy"
    and w1: "set ws1 \<subseteq> set spaceRunes"
  shows "\<exists>r. SplitN (TrimSpace (concat ws1 @ fx @ '','' @ fy @ '','' @ rest)) (CHR '','') 3 = [fx, fy, r]"
proof -
  obtain c s where cs: "fx @ '','' @ fy @ '','' @ rest = c # s" and c: "c \<in> set (CHR '','' # numberChars)"
    using numberText_hd [OF fx] by (cases fx) auto
  have l: "TrimLeftSpace (concat ws1 @ fx @ '','' @ fy @ '','' @ rest) = fx @ '','' @ fy @ '','' @ rest"
    using TrimLeftSpace_core [OF w1, of c s] numberChars_graphic [OF c] cs by simp
  obtain r where "TrimRightSpace ((fx @ '','' @ fy) @ CHR '','' # rest) = (fx @ '','' @ fy) @ CHR '','' # r"
    using TrimRightSpace_keeps by blast
  then have "TrimSpace (concat ws1 @ fx @ '','' @ fy @ '','' @ rest) = fx @ CHR '','' # fy @ CHR '','' # r"
    using l by (simp add: TrimSpace_def)
  then show ?thesis
    using SplitN_three [of "CHR '',''" fx fy r] numberText_no_comma fx fy by simp
qed

lemma decimalParseFloat_digit:
  "decimalParseFloat ''1'' = (Finite 1, None)"
  "decimalParseFloat ''2'' = (Finite 2, None)"
  "decimalParseFloat ''3'' = (Finite 3, None)"
  by (simp_all add: decimalParseFloat_def digitValue_def)

lemma decimalParseFloat_fail:
  "c \<notin> set ''0123456789'' \<Longrightarrow> c \<in> set s \<Longrightarrow> decimalParseFloat s = (Finite 0, Some ErrSyntax)"
  by (auto simp: decimalParseFloat_def list_all_iff)

lemma parseLine_abc_1:
  "parseLine decimalParseFloat ''abc,1''
     = Some (\<lparr>X = Finite 0, Y = Finite 0\<rparr>, Some (ErrParseFloat ErrSyntax))"
proof -
  have t: "TrimSpace ''abc,1'' = ''abc,1''"
    by (rule TrimSpace_text [of "CHR ''a''" "CHR ''1''" _ "''bc,''"]) simp_all
  have f: "SplitN ''abc,1'' (CHR '','') 3 = [''abc'', ''1'']"
    by simp
  have p: "decimalParseFloat ''abc'' = (Finite 0, Some ErrSyntax)"
    by (rule decimalParseFloat_fail [of "CHR ''a''"]) simp_all
  show ?thesis
    by (simp add: parseLine_fields [of _ "[''abc'', ''1'']"] t f p)
qed

lemma parseLine_1_abc:
  "parseLine decimalParseFloat ''1,abc''
     = Some (\<lparr>X = Finite 1, Y = Finite 0\<rparr>, Some (ErrParseFloat ErrSyntax))"
proof -
  have t: "TrimSpace ''1,abc'' = ''1,abc''"
    by (rule TrimSpace_text [of "CHR ''1''" "CHR ''c''" _ "'',ab''"]) simp_all
  have f: "SplitN ''1,abc'' (CHR '','') 3 = [''1'', ''abc'']"
    by simp
  have p: "decimalParseFloat ''abc'' = (Finite 0, Some ErrSyntax)"
    by (rule decimalParseFloat_fail [of "CHR ''a''"]) simp_all
  show ?thesis
    by (simp add: parseLine_fields [of _ "[''1'', ''abc'']"] t f p decimalParseFloat_digit)
qed

text \<open>
  The loop of \<open>dataSampleProcess\<close> never reads out of range, and keeps the pairs of
  the lines without error, in their order.
\<close>

lemma ingestLoop_accepted:
  "ix \<le> length srcLines \<Longrightarrow>
   ingestLoop pf srcLines (length srcLines) ix series
     = Some (series @ accepted pf (drop ix srcLines))"
proof (induction "length srcLines - ix" arbitrary: ix series)
  case 0
  then show ?case by (simp add: ingestLoop.simps accepted_def)
next
  case (Suc k)
  then have lt: "ix < length srcLines" by simp
  obtain p err where pl: "parseLine pf (srcLines ! ix) = Some (p, err)"
    using parseLine_total by blast
  have dr: "drop ix srcLines = srcLines ! ix # drop (Suc ix) srcLines"
    using lt by (simp add: Cons_nth_drop_Suc)
  have "k = length srcLines - Suc ix" using Suc.hyps(2) by simp
  then have IH: "\<And>acc. ingestLoop pf srcLines (length srcLines) (Suc ix) acc
                   = Some (acc @ accepted pf (drop (Suc ix) srcLines))"
    using Suc.hyps(1) lt by simp
  show ?case
    using lt pl IH
    by (subst ingestLoop.simps) (cases err; simp add: dr accepted_def)
qed

lemma ingest_accepted:
  "ingest pf src = Some (accepted pf (SplitN src (CHR 0x0A) MAXLINES))"
  by (simp add: ingest_def Let_def ingestLoop_accepted)

subsection \<open>Lines\<close>

text \<open>
  Claim C8. A line made of the texts of two numbers that \<open>strconv.ParseFloat\<close>
  accepts, separated by a comma, parses to exactly the two values: when the line is
  surrounded by any white space (\<open>ws1\<close> and \<open>ws2\<close> are lists of white space runes),
  and when a third field follows, whatever that field and the rest of the line hold.
\<close>

theorem parseLine_valid:
  assumes "pf fx = (x, None)" and "pf fy = (y, None)"
    and "numberText fx" and "numberText fy"
    and "set ws1 \<subseteq> set spaceRunes" and "set ws2 \<subseteq> set spaceRunes"
  shows "parseLine pf (concat ws1 @ fx @ '','' @ fy @ concat ws2) = Some (\<lparr>X = x, Y = y\<rparr>, None)
       \<and> parseLine pf (concat ws1 @ fx @ '','' @ fy @ '','' @ rest) = Some (\<lparr>X = x, Y = y\<rparr>, None)"
proof
  show "parseLine pf (concat ws1 @ fx @ '','' @ fy @ concat ws2) = Some (\<lparr>X = x, Y = y\<rparr>, None)"
    using assms fields_two [OF assms(3,4,5,6)] by (simp add: parseLine_def)
next
  obtain r where "SplitN (TrimSpace (concat ws1 @ fx @ '','' @ fy @ '','' @ rest)) (CHR '','') 3 = [fx, fy, r]"
    using fields_three [OF assms(3,4,5)] by blast
  then show "parseLine pf (concat ws1 @ fx @ '','' @ fy @ '','' @ rest) = Some (\<lparr>X = x, Y = y\<rparr>, None)"
    using assms by (simp add: parseLine_def)
qed

text \<open>
  At a line that starts with a space and a tab and ends with a carriage return and a
  space, and at a line with a third field.
\<close>

theorem parseLine_valid_witness:
  "parseLine decimalParseFloat ('' '' @ [CHR 0x09] @ ''12'' @ '','' @ ''7'' @ [CHR 0x0D] @ '' '')
     = Some (\<lparr>X = Finite 12, Y = Finite 7\<rparr>, None)
   \<and> parseLine decimalParseFloat ('' '' @ [CHR 0x09] @ ''12'' @ '','' @ ''7'' @ '','' @ ''zz '')
     = Some (\<lparr>X = Finite 12, Y = Finite 7\<rparr>, None)"
proof -
  have h1: "decimalParseFloat ''12'' = (Finite 12, None)"
    by (simp add: decimalParseFloat_def digitValue_def)
  have h2: "decimalParseFloat ''7'' = (Finite 7, None)"
    by (simp add: decimalParseFloat_def digitValue_def)
  have h3: "numberText ''12''" and h4: "numberText ''7''"
    by (simp_all add: numberText_def numberChars_def)
  have h5: "set ['' '', [CHR 0x09]] \<subseteq> set spaceRunes"
    and h6: "set [[CHR 0x0D], '' ''] \<subseteq> set spaceRunes"
    by (simp_all add: spaceRunes_def)
  show ?thesis
    using parseLine_valid [OF h1 h2 h3 h4 h5 h6, of "''zz ''"] by simp
qed

text \<open>
  Claim C1. The specification lets \<open>parseLine\<close> fail with \<open>MalformedLine\<close> on a
  line that is not empty and has fewer than two fields. The code has no such error: on
  \<open>abc\<close> and on a line of three spaces \<open>parseLine\<close> returns the zero \<open>Point\<close> with
  the error \<open>nil\<close>, whatever \<open>strconv.ParseFloat\<close> does, and the series read from the
  submission \<open>abc\<close> holds that point. (Lemma \<open>parseLine_few_fields\<close> has it for every
  such line.)
\<close>

theorem parseLine_few_fields_no_error:
  "parseLine pf ''abc'' = Some (zeroPoint, None)
   \<and> parseLine pf ''   '' = Some (zeroPoint, None)
   \<and> ingest pf ''abc'' = Some [zeroPoint]"
proof -
  have a: "TrimSpace ''abc'' = ''abc''"
    using TrimSpace_graphic(2) [of "CHR ''a''" "CHR ''c''" "''b''"] by simp
  have b: "TrimSpace ''   '' = []"
    using TrimSpace_spaces [of "['' '', '' '', '' '']"] by (simp add: spaceRunes_def)
  have 1: "parseLine pf ''abc'' = Some (zeroPoint, None)"
    by (simp add: parseLine_def a)
  have 2: "parseLine pf ''   '' = Some (zeroPoint, None)"
    by (simp add: parseLine_def b)
  have 3: "ingest pf ''abc'' = Some [zeroPoint]"
    by (simp add: ingest_accepted MAXLINES_def accepted_def 1)
  show ?thesis using 1 2 3 by simp
qed

text \<open>
  Claim C9. \<open>parseLine\<close> returns its error "No data" (\<open>EmptyLine\<close>) exactly when the
  line, untrimmed, has length 0. On a line that is not empty and splits into at least two
  fields: when \<open>strconv.ParseFloat\<close> fails on the first field, \<open>parseLine\<close> returns
  that error (\<open>InvalidNumber\<close>), \<open>y\<close> keeps its zero value and the second field is not
  looked at (any parser that agrees on the first field gives the same result); when the
  first field parses and the second fails, \<open>parseLine\<close> returns the error of the second
  field.
\<close>

theorem parseLine_errors:
  "(let coordsAr = SplitN (TrimSpace coords) (CHR '','') 3 in
     ((\<exists>p. parseLine pf coords = Some (p, Some ErrNoData)) \<longleftrightarrow> length coords = 0)
     \<and> (0 < length coords \<and> 2 \<le> length coordsAr \<and> pf (coordsAr ! 0) = (v, Some e) \<longrightarrow>
          parseLine pf coords = Some (\<lparr>X = v, Y = Finite 0\<rparr>, Some (ErrParseFloat e))
          \<and> (\<forall>pf'. pf' (coordsAr ! 0) = pf (coordsAr ! 0) \<longrightarrow>
                parseLine pf' coords = parseLine pf coords))
     \<and> (0 < length coords \<and> 2 \<le> length coordsAr \<and> pf (coordsAr ! 0) = (x, None)
          \<and> pf (coordsAr ! 1) = (w, Some e') \<longrightarrow>
          parseLine pf coords = Some (\<lparr>X = x, Y = w\<rparr>, Some (ErrParseFloat e'))))"
  using parseLine_ErrNoData [of pf coords]
  by (auto simp: Let_def parseLine_fields [OF _ refl])

text \<open>
  At the empty line, at \<open>abc,1\<close> (with a second parser that differs on the second
  field) and at \<open>1,abc\<close>.
\<close>

theorem parseLine_errors_witness:
  "(\<exists>p. parseLine decimalParseFloat [] = Some (p, Some ErrNoData))
   \<and> parseLine decimalParseFloat ''abc,1''
       = Some (\<lparr>X = Finite 0, Y = Finite 0\<rparr>, Some (ErrParseFloat ErrSyntax))
   \<and> parseLine (\<lambda>s. if s = ''abc'' then decimalParseFloat s else (Finite 9, Some ErrRange)) ''abc,1''
       = parseLine decimalParseFloat ''abc,1''
   \<and> parseLine decimalParseFloat ''1,abc''
       = Some (\<lparr>X = Finite 1, Y = Finite 0\<rparr>, Some (ErrParseFloat ErrSyntax))"
proof -
  have t1: "TrimSpace ''abc,1'' = ''abc,1''"
    by (rule TrimSpace_text [of "CHR ''a''" "CHR ''1''" _ "''bc,''"]) simp_all
  have t2: "TrimSpace ''1,abc'' = ''1,abc''"
    by (rule TrimSpace_text [of "CHR ''1''" "CHR ''c''" _ "'',ab''"]) simp_all
  have f1: "SplitN ''abc,1'' (CHR '','') 3 = [''abc'', ''1'']"
    and f2: "SplitN ''1,abc'' (CHR '','') 3 = [''1'', ''abc'']"
    by simp_all
  have p1: "decimalParseFloat ''abc'' = (Finite 0, Some ErrSyntax)"
    by (rule decimalParseFloat_fail [of "CHR ''a''"]) simp_all
  have p2: "decimalParseFloat ''1'' = (Finite 1, None)"
    by (simp add: decimalParseFloat_def digitValue_def)
  have a: "\<exists>p. parseLine decimalParseFloat [] = Some (p, Some ErrNoData)"
    using parseLine_errors [of "[]" decimalParseFloat] by (simp add: Let_def)
  have b: "parseLine decimalParseFloat ''abc,1''
             = Some (\<lparr>X = Finite 0, Y = Finite 0\<rparr>, Some (ErrParseFloat ErrSyntax))
           \<and> parseLine (\<lambda>s. if s = ''abc'' then decimalParseFloat s else (Finite 9, Some ErrRange)) ''abc,1''
               = parseLine decimalParseFloat ''abc,1''"
    using parseLine_errors [of "''abc,1''" decimalParseFloat "Finite 0" ErrSyntax]
    by (simp add: Let_def t1 f1 p1)
  have c: "parseLine decimalParseFloat ''1,abc''
             = Some (\<lparr>X = Finite 1, Y = Finite 0\<rparr>, Some (ErrParseFloat ErrSyntax))"
    using parseLine_errors [of "''1,abc''" decimalParseFloat _ _ "Finite 1" "Finite 0" ErrSyntax]
    by (simp add: Let_def t2 f2 p1 p2)
  show ?thesis using a b c by simp
qed

subsection \<open>Reading the series\<close>

text \<open>
  Claim C2. The specification lets \<open>ingest\<close> drop every malformed line. The code drops
  the lines on which \<open>parseLine\<close> returns an error, and \<open>parseLine\<close> returns none on a
  line without a comma: from the submission of the specification's own example, the lines
  \<open>1,1\<close>, \<open>2,2\<close>, \<open>bad line\<close> and \<open>3,3\<close>, the code reads four pairs, the third
  being (0, 0), where the specification has three.
\<close>

theorem ingest_keeps_malformed_line:
  "ingest decimalParseFloat
     (''1,1'' @ [CHR 0x0A] @ ''2,2'' @ [CHR 0x0A] @ ''bad line'' @ [CHR 0x0A] @ ''3,3'')
   = Some [\<lparr>X = Finite 1, Y = Finite 1\<rparr>, \<lparr>X = Finite 2, Y = Finite 2\<rparr>,
           \<lparr>X = Finite 0, Y = Finite 0\<rparr>, \<lparr>X = Finite 3, Y = Finite 3\<rparr>]"
proof -
  have s: "SplitN (''1,1'' @ [CHR 0x0A] @ ''2,2'' @ [CHR 0x0A] @ ''bad line'' @ [CHR 0x0A] @ ''3,3'')
             (CHR 0x0A) MAXLINES = [''1,1'', ''2,2'', ''bad line'', ''3,3'']"
    by (simp add: MAXLINES_def)
  have 1: "parseLine decimalParseFloat ''1,1'' = Some (\<lparr>X = Finite 1, Y = Finite 1\<rparr>, None)"
    by (rule parseLine_two [of "CHR ''1''" "CHR ''1''" _ "'',''" "''1''" "''1''"])
       (simp_all add: decimalParseFloat_digit)
  have 2: "parseLine decimalParseFloat ''2,2'' = Some (\<lparr>X = Finite 2, Y = Finite 2\<rparr>, None)"
    by (rule parseLine_two [of "CHR ''2''" "CHR ''2''" _ "'',''" "''2''" "''2''"])
       (simp_all add: decimalParseFloat_digit)
  have 3: "parseLine decimalParseFloat ''3,3'' = Some (\<lparr>X = Finite 3, Y = Finite 3\<rparr>, None)"
    by (rule parseLine_two [of "CHR ''3''" "CHR ''3''" _ "'',''" "''3''" "''3''"])
       (simp_all add: decimalParseFloat_digit)
  have b: "parseLine decimalParseFloat ''bad line'' = Some (zeroPoint, None)"
    by (rule parseLine_one [of "CHR ''b''" "CHR ''e''" _ "''ad lin''"]) simp_all
  show ?thesis
    by (simp only: ingest_accepted s) (simp add: accepted_def 1 2 3 b zeroPoint_def)
qed

text \<open>
  Claim C10. \<open>ingest\<close> never fails: for every parser and every submission the loop
  ends without a panic and returns a series; the series of the empty submission is
  empty, since its only line is empty and is dropped; and so is the series of the
  submission of the two lines \<open>abc,1\<close> and \<open>1,abc\<close>, on each of which \<open>parseLine\<close>
  returns an error.
\<close>

theorem ingest_returns:
  "(\<exists>series. ingest pf src = Some series)
   \<and> ingest pf [] = Some []
   \<and> ingest decimalParseFloat (''abc,1'' @ [CHR 0x0A] @ ''1,abc'') = Some []"
proof -
  have "ingest pf src = Some (accepted pf (SplitN src (CHR 0x0A) MAXLINES))"
    by (rule ingest_accepted)
  then have 1: "\<exists>series. ingest pf src = Some series"
    by blast
  have 2: "ingest pf [] = Some []"
    by (simp add: ingest_accepted MAXLINES_def accepted_def parseLine_empty)
  have "SplitN (''abc,1'' @ [CHR 0x0A] @ ''1,abc'') (CHR 0x0A) MAXLINES = [''abc,1'', ''1,abc'']"
    by (simp add: MAXLINES_def)
  then have 3: "ingest decimalParseFloat (''abc,1'' @ [CHR 0x0A] @ ''1,abc'') = Some []"
    by (simp only: ingest_accepted) (simp add: accepted_def parseLine_abc_1 parseLine_1_abc)
  show ?thesis using 1 2 3 by simp
qed

subsection \<open>The regression\<close>

lemma sumLoop_foldl:
  "ix \<le> length series \<Longrightarrow>
   sumLoop series (length series) ix (a, b, c, d)
     = Some (foldl (+) a (map X (drop ix series)),
             foldl (+) b (map Y (drop ix series)),
             foldl (+) c (map (\<lambda>p. X p * Y p) (drop ix series)),
             foldl (+) d (map (\<lambda>p. X p * X p) (drop ix series)))"
proof (induction "length series - ix" arbitrary: ix a b c d)
  case 0
  then show ?case by (simp add: sumLoop.simps)
next
  case (Suc k)
  then have lt: "ix < length series" by simp
  have dr: "drop ix series = series ! ix # drop (Suc ix) series"
    using lt by (simp add: Cons_nth_drop_Suc)
  have "k = length series - Suc ix" using Suc.hyps(2) by simp
  then have IH: "\<And>a b c d. sumLoop series (length series) (Suc ix) (a, b, c, d)
     = Some (foldl (+) a (map X (drop (Suc ix) series)),
             foldl (+) b (map Y (drop (Suc ix) series)),
             foldl (+) c (map (\<lambda>p. X p * Y p) (drop (Suc ix) series)),
             foldl (+) d (map (\<lambda>p. X p * X p) (drop (Suc ix) series)))"
    using Suc.hyps(1) lt by simp
  show ?case
    using lt IH by (subst sumLoop.simps) (simp add: dr Let_def)
qed

lemma residualLoop_foldl:
  "ix \<le> length series \<Longrightarrow>
   residualLoop series (length series) ymean slope intercept ix (a, b)
     = Some (foldl (+) a (map (\<lambda>p. (Y p - ymean) * (Y p - ymean)) (drop ix series)),
             foldl (+) b (map (\<lambda>p. (Y p - (slope * X p - intercept))
                                      * (Y p - (slope * X p - intercept))) (drop ix series)))"
proof (induction "length series - ix" arbitrary: ix a b)
  case 0
  then show ?case by (simp add: residualLoop.simps)
next
  case (Suc k)
  then have lt: "ix < length series" by simp
  have dr: "drop ix series = series ! ix # drop (Suc ix) series"
    using lt by (simp add: Cons_nth_drop_Suc)
  have "k = length series - Suc ix" using Suc.hyps(2) by simp
  then have IH: "\<And>a b. residualLoop series (length series) ymean slope intercept (Suc ix) (a, b)
     = Some (foldl (+) a (map (\<lambda>p. (Y p - ymean) * (Y p - ymean)) (drop (Suc ix) series)),
             foldl (+) b (map (\<lambda>p. (Y p - (slope * X p - intercept))
                                      * (Y p - (slope * X p - intercept))) (drop (Suc ix) series)))"
    using Suc.hyps(1) lt by simp
  show ?case
    using lt IH by (subst residualLoop.simps) (simp add: dr Let_def)
qed

lemma linearRegression_closed: "linearRegression series = Some (regress series)"
  by (simp add: linearRegression_def regress_def Let_def Sigma_def sumLoop_foldl residualLoop_foldl)

lemmas regress_eval = linearRegression_closed regress_def Sigma_def Let_def float64_of_nat_def
  minus_float64_def

lemma divide_zero: "IsNaN_or_Inf (x / Finite 0)"
  by (cases x) auto

lemma Sqrt_divide_zero: "IsNaN_or_Inf (Sqrt (x / Finite 0))"
  by (cases x) auto

text \<open>
  Claim C4. For every series (so for every series of at least two pairs whose sums are
  not degenerate) \<open>linearRegression\<close> returns the four numbers of the specification's
  formulas: slope \<open>(n Sxy - Sx Sy) / (n Sx2 - Sx Sx)\<close>, intercept
  \<open>mean y - slope * mean x\<close>, standard error \<open>sqrt (Sr / (n - 2))\<close> and correlation
  \<open>sqrt ((St - Sr) / St)\<close>, where every term of \<open>Sr\<close> takes \<open>slope * x - intercept\<close>
  (minus) as the fitted value. The sums are taken from 0 in the order of the series, as
  the loops take them, so the equation rests on no law of arithmetic.
\<close>

theorem linearRegression_formulas: "linearRegression series = Some (regress series)"
proof -
  have sums:
    "sumLoop series (length series) 0 (Finite 0, Finite 0, Finite 0, Finite 0)
       = Some (Sigma X series, Sigma Y series,
               Sigma (\<lambda>p. X p * Y p) series, Sigma (\<lambda>p. X p * X p) series)"
    by (simp add: sumLoop_foldl Sigma_def)
  have squares:
    "\<And>ymean slope intercept.
       residualLoop series (length series) ymean slope intercept 0 (Finite 0, Finite 0)
         = Some (Sigma (\<lambda>p. (Y p - ymean) * (Y p - ymean)) series,
                 Sigma (\<lambda>p. (Y p - (slope * X p - intercept))
                               * (Y p - (slope * X p - intercept))) series)"
    by (simp add: residualLoop_foldl Sigma_def)
  show ?thesis
    by (simp add: linearRegression_def regress_def Let_def sums squares)
qed

text \<open>
  Claim C7. For the series (1,2), (2,4), (3,6) the regression returns slope 2,
  intercept 0, standard error 0 and correlation 1.
\<close>

theorem linearRegression_perfect_fit:
  "linearRegression [\<lparr>X = Finite 1, Y = Finite 2\<rparr>, \<lparr>X = Finite 2, Y = Finite 4\<rparr>,
                     \<lparr>X = Finite 3, Y = Finite 6\<rparr>]
     = Some (Finite 2, Finite 0, Finite 0, Finite 1)"
  by (simp add: regress_eval)

text \<open>
  Claim C3, as the code has it. \<open>linearRegression\<close> has no error result and signals
  nothing: for every series of at least two pairs it returns four numbers; when the
  denominator of the slope is zero the slope it returns is NaN or an infinity, and when
  the total sum of squares is zero the correlation it returns is NaN or an infinity.
  (For fewer than two pairs the source itself notes the missing check; nothing is said
  about them here.)
\<close>

theorem linearRegression_no_signal:
  "2 \<le> length series \<Longrightarrow>
   \<exists>slope intercept stdError correlation.
     linearRegression series = Some (slope, intercept, stdError, correlation)
     \<and> (slopeDenominator series = Finite 0 \<longrightarrow> IsNaN_or_Inf slope)
     \<and> (totalSquares series = Finite 0 \<longrightarrow> IsNaN_or_Inf correlation)"
  using divide_zero Sqrt_divide_zero
  by (simp add: linearRegression_closed regress_def slopeDenominator_def totalSquares_def Let_def)

text \<open>
  At two equal points both denominators are zero.
\<close>

theorem linearRegression_no_signal_witness:
  "2 \<le> length [\<lparr>X = Finite 1, Y = Finite 1\<rparr>, \<lparr>X = Finite 1, Y = Finite 1\<rparr>]
   \<and> slopeDenominator [\<lparr>X = Finite 1, Y = Finite 1\<rparr>, \<lparr>X = Finite 1, Y = Finite 1\<rparr>] = Finite 0
   \<and> totalSquares [\<lparr>X = Finite 1, Y = Finite 1\<rparr>, \<lparr>X = Finite 1, Y = Finite 1\<rparr>] = Finite 0
   \<and> (\<exists>slope intercept stdError correlation.
        linearRegression [\<lparr>X = Finite 1, Y = Finite 1\<rparr>, \<lparr>X = Finite 1, Y = Finite 1\<rparr>]
          = Some (slope, intercept, stdError, correlation)
        \<and> IsNaN_or_Inf slope \<and> IsNaN_or_Inf correlation)"
proof -
  have h: "2 \<le> length [\<lparr>X = Finite 1, Y = Finite 1\<rparr>, \<lparr>X = Finite 1, Y = Finite 1\<rparr>]"
    by simp
  have d: "slopeDenominator [\<lparr>X = Finite 1, Y = Finite 1\<rparr>, \<lparr>X = Finite 1, Y = Finite 1\<rparr>] = Finite 0"
    by (simp add: slopeDenominator_def Sigma_def float64_of_nat_def minus_float64_def)
  have t: "totalSquares [\<lparr>X = Finite 1, Y = Finite 1\<rparr>, \<lparr>X = Finite 1, Y = Finite 1\<rparr>] = Finite 0"
    by (simp add: totalSquares_def Sigma_def float64_of_nat_def minus_float64_def Let_def)
  show ?thesis
    using linearRegression_no_signal [OF h] h d t by simp
qed

text \<open>
  Against claim C3 as the specification states it: for two points with the same
  \<open>x\<close> the denominator of the slope is zero, and the code returns four NaN as an
  ordinary result instead of signalling \<open>DegenerateSeries\<close>.
\<close>

theorem linearRegression_identical_x_returns_NaN:
  "linearRegression [\<lparr>X = Finite 1, Y = Finite 1\<rparr>, \<lparr>X = Finite 1, Y = Finite 2\<rparr>]
     = Some (NaN, NaN, NaN, NaN)"
  by (simp add: regress_eval)

subsection \<open>The response\<close>

lemma bindE_simps [simp]: "bindE (Inl e) f = Inl e" "bindE (Inr a) f = f a"
  by (simp_all add: bindE_def)

lemma floatEncoder_simps [simp]:
  "floatEncoder fmt f = (if IsNaN_or_Inf f then Inl UnsupportedValueError else Inr (fmt f))"
  by (simp add: floatEncoder_def)

lemma encodePoint_eq:
  "encodePoint fmt p =
     (if \<not> IsNaN_or_Inf (X p) \<and> \<not> IsNaN_or_Inf (Y p)
      then Inr (render (JObject [(''x'', JNumber (fmt (X p))), (''y'', JNumber (fmt (Y p)))]))
      else Inl UnsupportedValueError)"
  by (simp add: encodePoint_def)

lemma encodeElems_eq:
  "encodeElems fmt ps =
     (if list_all (\<lambda>p. \<not> IsNaN_or_Inf (X p) \<and> \<not> IsNaN_or_Inf (Y p)) ps
      then Inr (joinComma (map (\<lambda>p. render (JObject [(''x'', JNumber (fmt (X p))),
                                                       (''y'', JNumber (fmt (Y p)))])) ps))
      else Inl UnsupportedValueError)"
  by (induction fmt ps rule: encodeElems.induct) (simp_all add: encodePoint_eq)

lemma encodeRegressionLine_eq:
  "encodeRegressionLine fmt r =
     (if \<not> IsNaN_or_Inf (Slope r) \<and> \<not> IsNaN_or_Inf (Intercept r)
         \<and> \<not> IsNaN_or_Inf (StdError r) \<and> \<not> IsNaN_or_Inf (Correlation r)
      then Inr (render (JObject [(''slope'', JNumber (fmt (Slope r))),
                                 (''intercept'', JNumber (fmt (Intercept r))),
                                 (''stdError'', JNumber (fmt (StdError r))),
                                 (''correlation'', JNumber (fmt (Correlation r)))]))
      else Inl UnsupportedValueError)"
  by (simp add: encodeRegressionLine_def)

lemma Marshal_eq:
  "Marshal fmt ds =
     (if finiteSample ds then Inr (render (document fmt ds)) else Inl UnsupportedValueError)"
  by (simp add: Marshal_def encodeSeries_def encodeElems_eq encodeRegressionLine_eq
      finiteSample_def document_def comp_def)

lemma decimal_digit: "n < 10 \<Longrightarrow> decimal n = [''0123456789'' ! n]"
  by (subst decimal.simps) simp

lemma decimalFormat_digit:
  "decimalFormat (Finite 0) = ''0''" "decimalFormat (Finite 1) = ''1''"
  "decimalFormat (Finite 2) = ''2''" "decimalFormat (Finite 3) = ''3''"
  "decimalFormat (Finite 4) = ''4''" "decimalFormat (Finite 6) = ''6''"
  by (simp_all add: decimalFormat_def decimal_digit)

text \<open>
  Claim C5, as the code has it. For every data sample whose numbers are all finite,
  \<open>json.Marshal\<close> writes the text of the specification's document: exactly two
  top-level fields, \<open>series\<close>, the list in order of objects with the fields \<open>x\<close> and
  \<open>y\<close>, and \<open>regressionLine\<close>, an object with the fields \<open>slope\<close>, \<open>intercept\<close>,
  \<open>stdError\<close> and \<open>correlation\<close>. For a sample that holds NaN or an infinity it
  returns an \<open>UnsupportedValueError\<close> and no text.
\<close>

theorem Marshal_document:
  "Marshal fmt ds =
     (if finiteSample ds then Inr (render (document fmt ds)) else Inl UnsupportedValueError)"
proof -
  have series:
    "encodeSeries fmt (Series ds) =
       (if list_all (\<lambda>p. \<not> IsNaN_or_Inf (X p) \<and> \<not> IsNaN_or_Inf (Y p)) (Series ds)
        then Inr (render (JArray (map (\<lambda>p. JObject [(''x'', JNumber (fmt (X p))),
                                                    (''y'', JNumber (fmt (Y p)))]) (Series ds))))
        else Inl UnsupportedValueError)"
    by (simp add: encodeSeries_def encodeElems_eq comp_def)
  show ?thesis
    by (simp add: Marshal_def series encodeRegressionLine_eq finiteSample_def document_def)
qed

text \<open>
  At the sample of the series (1,2), (2,4), (3,6) and its regression line.
\<close>

theorem Marshal_document_witness:
  \<open>Marshal decimalFormat
     \<lparr>Series = [\<lparr>X = Finite 1, Y = Finite 2\<rparr>, \<lparr>X = Finite 2, Y = Finite 4\<rparr>,
                \<lparr>X = Finite 3, Y = Finite 6\<rparr>],
      RegressionLine = \<lparr>Slope = Finite 2, Intercept = Finite 0,
                        StdError = Finite 0, Correlation = Finite 1\<rparr>\<rparr>
   = Inr (''{"series":[{"x":1,"y":2},{"x":2,"y":4},{"x":3,"y":6}],''
          @ ''"regressionLine":{"slope":2,"intercept":0,"stdError":0,"correlation":1}}'')\<close>
  using Marshal_document [of decimalFormat
     "\<lparr>Series = [\<lparr>X = Finite 1, Y = Finite 2\<rparr>, \<lparr>X = Finite 2, Y = Finite 4\<rparr>,
                \<lparr>X = Finite 3, Y = Finite 6\<rparr>],
      RegressionLine = \<lparr>Slope = Finite 2, Intercept = Finite 0,
                        StdError = Finite 0, Correlation = Finite 1\<rparr>\<rparr>"]
  by (simp add: finiteSample_def document_def quote_def decimalFormat_digit)

text \<open>
  Against claim C5 as the specification states it, for every data sample: the sample
  of the empty series holds NaN, and \<open>json.Marshal\<close> returns an error instead of a
  document.
\<close>

theorem Marshal_refuses_NaN:
  "Marshal decimalFormat
     \<lparr>Series = [],
      RegressionLine = \<lparr>Slope = NaN, Intercept = NaN, StdError = Finite 0, Correlation = NaN\<rparr>\<rparr>
   = Inl UnsupportedValueError"
  by (simp add: Marshal_eq finiteSample_def)

text \<open>
  Claim C6. For every submission of which no line is accepted, \<open>dataSampleProcess\<close>
  of the later revision returns the empty string: the regression of the empty series
  returns NaN as slope, intercept and correlation, \<open>json.Marshal\<close> refuses NaN, and the
  error branch returns the named result, which is still empty. (The standard error of
  the empty series is the square root of \<open>0 / -2\<close>: a zero, negative in binary64.)
\<close>

theorem dataSampleProcess_empty_series:
  "ingest pf src = Some [] \<Longrightarrow>
   linearRegression [] = Some (NaN, NaN, Finite 0, NaN)
   \<and> Marshal fmt \<lparr>Series = [],
        RegressionLine = \<lparr>Slope = NaN, Intercept = NaN, StdError = Finite 0, Correlation = NaN\<rparr>\<rparr>
       = Inl UnsupportedValueError
   \<and> dataSampleProcess pf fmt src = Some []"
proof -
  assume i: "ingest pf src = Some []"
  have r: "linearRegression [] = Some (NaN, NaN, Finite 0, NaN)"
    by (simp add: regress_eval)
  have m: "Marshal fmt \<lparr>Series = [],
        RegressionLine = \<lparr>Slope = NaN, Intercept = NaN, StdError = Finite 0, Correlation = NaN\<rparr>\<rparr>
       = Inl UnsupportedValueError"
    by (simp add: Marshal_eq finiteSample_def)
  have "dataSampleProcess pf fmt src = Some []"
    by (simp add: dataSampleProcess_def i r m)
  then show ?thesis using r m by simp
qed

text \<open>
  At the empty submission.
\<close>

theorem dataSampleProcess_empty_series_witness:
  "ingest decimalParseFloat [] = Some []
   \<and> dataSampleProcess decimalParseFloat decimalFormat [] = Some []"
proof -
  have h: "ingest decimalParseFloat [] = Some []"
    by (simp add: ingest_accepted MAXLINES_def accepted_def parseLine_empty)
  show ?thesis using dataSampleProcess_empty_series [OF h, of decimalFormat] h by simp
qed

text \<open>
  The text \<open>dataSampleProcess\<close> of \<open>goplot.go\<close> writes by hand has the same names
  and the same nesting, for every submission: NaN and the infinities are printed too.
\<close>

lemma seriesLoop_concat:
  "ix \<le> length series \<Longrightarrow>
   seriesLoop fmt3 series ix jsonStr
     = Some (jsonStr @ concat (map (\<lambda>p. ''{x:'' @ fmt3 (X p) @ '',y:'' @ fmt3 (Y p) @ ''},'')
                                (drop ix series)))"
proof (induction "length series - ix" arbitrary: ix jsonStr)
  case 0
  then show ?case by (simp add: seriesLoop.simps)
next
  case (Suc k)
  then have lt: "ix < length series" by simp
  have dr: "drop ix series = series ! ix # drop (Suc ix) series"
    using lt by (simp add: Cons_nth_drop_Suc)
  have "k = length series - Suc ix" using Suc.hyps(2) by simp
  then have IH: "\<And>acc. seriesLoop fmt3 series (Suc ix) acc
     = Some (acc @ concat (map (\<lambda>p. ''{x:'' @ fmt3 (X p) @ '',y:'' @ fmt3 (Y p) @ ''},'')
                             (drop (Suc ix) series)))"
    using Suc.hyps(1) lt by simp
  show ?case
    using lt IH by (subst seriesLoop.simps) (simp add: dr)
qed

lemma dataSampleProcess_goplot_text:
  "dataSampleProcess_goplot pf fmt3 fmtf src =
     (case regress (accepted pf (SplitN src (CHR 0x0A) MAXLINES)) of
        (slope, intercept, stdError, correlation) \<Rightarrow>
          Some (''{series:[''
                @ concat (map (\<lambda>p. ''{x:'' @ fmt3 (X p) @ '',y:'' @ fmt3 (Y p) @ ''},'')
                            (accepted pf (SplitN src (CHR 0x0A) MAXLINES)))
                @ ''],'' @ [CHR 0x0A]
                @ ''regressionLine:{slope:'' @ fmtf slope @ '',intercept:'' @ fmtf intercept
                @ '',stdError:'' @ fmtf stdError @ '',correlation:'' @ fmtf correlation
                @ ''},'' @ ''}''))"
  by (simp add: dataSampleProcess_goplot_def ingest_accepted seriesLoop_concat
      linearRegression_closed split: prod.splits)

text \<open>
  The whole pipeline on the submission of the lines \<open>1,2\<close>, \<open>2,4\<close> and \<open>3,6\<close>.
\<close>

lemma dataSampleProcess_example:
  \<open>dataSampleProcess decimalParseFloat decimalFormat
     (''1,2'' @ [CHR 0x0A] @ ''2,4'' @ [CHR 0x0A] @ ''3,6'')
   = Some (''{"series":[{"x":1,"y":2},{"x":2,"y":4},{"x":3,"y":6}],''
           @ ''"regressionLine":{"slope":2,"intercept":0,"stdError":0,"correlation":1}}'')\<close>
proof -
  have s: "SplitN (''1,2'' @ [CHR 0x0A] @ ''2,4'' @ [CHR 0x0A] @ ''3,6'') (CHR 0x0A) MAXLINES
             = [''1,2'', ''2,4'', ''3,6'']"
    by (simp add: MAXLINES_def)
  have d: "decimalParseFloat ''4'' = (Finite 4, None)" "decimalParseFloat ''6'' = (Finite 6, None)"
    by (simp_all add: decimalParseFloat_def digitValue_def)
  have 1: "parseLine decimalParseFloat ''1,2'' = Some (\<lparr>X = Finite 1, Y = Finite 2\<rparr>, None)"
    by (rule parseLine_two [of "CHR ''1''" "CHR ''2''" _ "'',''" "''1''" "''2''"])
       (simp_all add: decimalParseFloat_digit)
  have 2: "parseLine decimalParseFloat ''2,4'' = Some (\<lparr>X = Finite 2, Y = Finite 4\<rparr>, None)"
    by (rule parseLine_two [of "CHR ''2''" "CHR ''4''" _ "'',''" "''2''" "''4''"])
       (simp_all add: decimalParseFloat_digit d)
  have 3: "parseLine decimalParseFloat ''3,6'' = Some (\<lparr>X = Finite 3, Y = Finite 6\<rparr>, None)"
    by (rule parseLine_two [of "CHR ''3''" "CHR ''6''" _ "'',''" "''3''" "''6''"])
       (simp_all add: decimalParseFloat_digit d)
  have i: "ingest decimalParseFloat (''1,2'' @ [CHR 0x0A] @ ''2,4'' @ [CHR 0x0A] @ ''3,6'')
             = Some [\<lparr>X = Finite 1, Y = Finite 2\<rparr>, \<lparr>X = Finite 2, Y = Finite 4\<rparr>,
                     \<lparr>X = Finite 3, Y = Finite 6\<rparr>]"
    by (simp only: ingest_accepted s) (simp add: accepted_def 1 2 3)
  have r: "linearRegression [\<lparr>X = Finite 1, Y = Finite 2\<rparr>, \<lparr>X = Finite 2, Y = Finite 4\<rparr>,
                             \<lparr>X = Finite 3, Y = Finite 6\<rparr>]
             = Some (Finite 2, Finite 0, Finite 0, Finite 1)"
    by (simp add: regress_eval)
  show ?thesis
    by (simp only: dataSampleProcess_def i)
       (simp add: r Marshal_eq finiteSample_def document_def quote_def decimalFormat_digit)
qed

end
